theory Spec2Isabelle
  imports
    Complex_Main
    "HOL-Library.Word"
    "HOL-Library.Multiset"
    "HOL-Library.List_Lexorder"
    "HOL-Library.Char_ord"
    "HOL-Library.Product_Lexorder"
begin

unbundle bit_operations_syntax

text \<open>
  A shallow embedding of the metrics package: label pairs, their order and their
  fingerprint (\<^verbatim>\<open>dump.go\<close>); counters, partials and counter families (\<^verbatim>\<open>counter.go\<close>; the
  gauge and summary families repeat the counter family word for word); the options and
  the derived family name (\<^verbatim>\<open>summary.go\<close>); and the registry. Definitions come first, then
  the facts about them, then the claims.
\<close>

section \<open>Panics and results\<close>

text \<open>
  The package reports every usage error by \<^verbatim>\<open>panic\<close>. A panic is a value here: one
  constructor per \<^verbatim>\<open>panic(...)\<close> call of the sources, and one for the runtime's own
  panic on an index or a slice bound out of range. A Go string is a sequence of bytes,
  so it is a \<^typ>\<open>string\<close>; \<^verbatim>\<open><\<close> on strings compares bytewise (the lexicographic
  order of lists over the order of characters by their codes). A \<^verbatim>\<open>labelPair\<close> is a
  struct of two strings; it comes first because one panic carries a pair.
\<close>

datatype labelPair = LabelPair (Name: string) (Value: string)

datatype panic =
    IllegalLabels "string list"
  | WrongDimensions
  | DoesNotMatchDimensions labelPair
  | MissingFingerprint
  | AlreadyRegistered
  | IllegalName
  | IllegalHelp
  | IndexOutOfRange

datatype 'a outcome = Returned 'a | Panicked panic

fun bind :: "'a outcome \<Rightarrow> ('a \<Rightarrow> 'b outcome) \<Rightarrow> 'b outcome" where
  "bind (Returned x) k = k x"
| "bind (Panicked e) k = Panicked e"

section \<open>The standard library, as far as the package calls it\<close>

subsection \<open>hash/fnv: the 64-bit FNV-1a digest\<close>

definition offset64 :: "64 word" where
  "offset64 = 14695981039346656037"

definition prime64 :: "64 word" where
  "prime64 = 1099511628211"

definition fnv_New64a :: "64 word" where
  "fnv_New64a = offset64"

text \<open>\<^verbatim>\<open>Write\<close>: for every byte, \<^verbatim>\<open>hash ^= uint64(c); hash *= prime64\<close>.\<close>

definition fnv_Write :: "64 word \<Rightarrow> string \<Rightarrow> 64 word" where
  "fnv_Write digest data = foldl (\<lambda>hash c. (hash XOR of_char c) * prime64) digest data"

subsection \<open>sort: IsSorted and Sort\<close>

text \<open>
  \<^verbatim>\<open>sort.Interface\<close> is a slice with its \<^verbatim>\<open>Less\<close>; here a list and a comparison of two
  elements, which may panic. \<^verbatim>\<open>IsSorted\<close> walks from the last index down and answers
  false at the first \<^verbatim>\<open>Less(i, i-1)\<close>.
\<close>

fun isSorted_down :: "('a \<Rightarrow> 'a \<Rightarrow> bool outcome) \<Rightarrow> 'a list \<Rightarrow> bool outcome" where
  "isSorted_down lt (xi # xj # rest) =
     bind (lt xi xj) (\<lambda>b. if b then Returned False else isSorted_down lt (xj # rest))"
| "isSorted_down lt rest = Returned True"

definition sort_IsSorted :: "('a \<Rightarrow> 'a \<Rightarrow> bool outcome) \<Rightarrow> 'a list \<Rightarrow> bool outcome" where
  "sort_IsSorted lt data = isSorted_down lt (rev data)"

text \<open>
  \<^verbatim>\<open>sort.Sort\<close> is modelled by the library's \<^verbatim>\<open>insertionSort\<close>, the routine it runs on
  short slices:
  \<^verbatim>\<open>for i := a + 1; i < b; i++ { for j := i; j > a && data.Less(j, j-1); j-- { data.Swap(j, j-1) } }\<close>.
  \<open>sink lt x left\<close> is the inner loop: \<open>left\<close> holds the elements before \<open>x\<close>, nearest
  first, and \<open>x\<close> moves past each neighbour it is \<^verbatim>\<open>Less\<close> than. The theorems below use
  only what every sorting routine gives: a permutation of its input, which is ascending
  when \<^verbatim>\<open>Less\<close> is a strict linear order (lemmas \<open>sort_Sort_total\<close>, \<open>sort_labels\<close>,
  \<open>sorted_labels_unique\<close>).
\<close>

fun sink :: "('a \<Rightarrow> 'a \<Rightarrow> bool outcome) \<Rightarrow> 'a \<Rightarrow> 'a list \<Rightarrow> 'a list outcome" where
  "sink lt x [] = Returned [x]"
| "sink lt x (y # left) =
     bind (lt x y) (\<lambda>b. if b then bind (sink lt x left) (\<lambda>l. Returned (y # l))
                            else Returned (x # y # left))"

fun insertionSort :: "('a \<Rightarrow> 'a \<Rightarrow> bool outcome) \<Rightarrow> 'a list \<Rightarrow> 'a list \<Rightarrow> 'a list outcome" where
  "insertionSort lt left [] = Returned (rev left)"
| "insertionSort lt left (x # rest) =
     bind (sink lt x left) (\<lambda>left'. insertionSort lt left' rest)"

definition sort_Sort :: "('a \<Rightarrow> 'a \<Rightarrow> bool outcome) \<Rightarrow> 'a list \<Rightarrow> 'a list outcome" where
  "sort_Sort lt data = insertionSort lt [] data"

subsection \<open>strings.Join\<close>

fun strings_Join :: "string list \<Rightarrow> string \<Rightarrow> string" where
  "strings_Join [] sep = []"
| "strings_Join [s] sep = s"
| "strings_Join (s # t # rest) sep = s @ sep @ strings_Join (t # rest) sep"

section \<open>dump.go: label pairs\<close>

definition labelPair_Before :: "labelPair \<Rightarrow> labelPair \<Rightarrow> bool" where
  "labelPair_Before l o' =
     (if Name l < Name o' then True
      else if Name l > Name o' then False
      else if Value l < Value o' then True
      else False)"

text \<open>\<^verbatim>\<open>fmt.Sprintf("%s=%s", l.Name, l.Value)\<close>\<close>

definition labelPair_String :: "labelPair \<Rightarrow> string" where
  "labelPair_String l = Name l @ ''='' @ Value l"

definition labelPairs_Less :: "labelPair \<Rightarrow> labelPair \<Rightarrow> bool outcome" where
  "labelPairs_Less li lj = Returned (labelPair_Before li lj)"

text \<open>
  \<^verbatim>\<open>fmt.Fprint(digest, pair.Name, pair.Value)\<close> writes the two strings with nothing
  between them (\<^verbatim>\<open>Fprint\<close> puts a space between operands only when neither is a string).
\<close>

definition labelPairs_fingerprint :: "labelPair list \<Rightarrow> 64 word" where
  "labelPairs_fingerprint l =
     foldl (\<lambda>digest pair. fnv_Write digest (Name pair @ Value pair)) fnv_New64a l"

text \<open>
  \<^verbatim>\<open>for i, pair := range l { if pair.Before(&o[i]) { return true } }; return false\<close>.
  Reading \<^verbatim>\<open>o[i]\<close> past the end of \<^verbatim>\<open>o\<close> panics.
\<close>

fun labelPairs_Before :: "labelPair list \<Rightarrow> labelPair list \<Rightarrow> bool outcome" where
  "labelPairs_Before [] o' = Returned False"
| "labelPairs_Before (pair # l) [] = Panicked IndexOutOfRange"
| "labelPairs_Before (pair # l) (oi # o') =
     (if labelPair_Before pair oi then Returned True else labelPairs_Before l o')"

definition labelPairs_Strings :: "labelPair list \<Rightarrow> string list" where
  "labelPairs_Strings l = foldl (\<lambda>s p. s @ [labelPair_String p]) [] l"

definition labelPairs_String :: "labelPair list \<Rightarrow> string" where
  "labelPairs_String l = strings_Join (labelPairs_Strings l) '',''"

text \<open>
  The first lines of \<^verbatim>\<open>Apply\<close>: \<^verbatim>\<open>if !sort.IsSorted(p.labels) { sort.Sort(p.labels) }\<close>.
\<close>

definition canonicalize :: "labelPair list \<Rightarrow> labelPair list outcome" where
  "canonicalize labels =
     bind (sort_IsSorted labelPairs_Less labels)
       (\<lambda>isSorted. if \<not> isSorted then sort_Sort labelPairs_Less labels else Returned labels)"

section \<open>summary.go: MetricOptions\<close>

record MetricOptions =
  Name :: string
  Subsystem :: string
  Namespace :: string
  Dimensions :: "string list"
  Help :: string

text \<open>\<^verbatim>\<open>fmt.Sprintf("%s_%s_%s", ...)\<close> and \<^verbatim>\<open>fmt.Sprintf("%s_%s", ...)\<close>, case by case.\<close>

definition deriveName :: "'a MetricOptions_scheme \<Rightarrow> string" where
  "deriveName o' =
     (if Namespace o' \<noteq> [] \<and> Subsystem o' \<noteq> []
        then Namespace o' @ ''_'' @ Subsystem o' @ ''_'' @ Name o'
      else if Namespace o' \<noteq> [] then Namespace o' @ ''_'' @ Name o'
      else if Subsystem o' \<noteq> [] then Subsystem o' @ ''_'' @ Name o'
      else Name o')"

definition MetricOptions_validate :: "'a MetricOptions_scheme \<Rightarrow> unit outcome" where
  "MetricOptions_validate o' =
     (if Name o' = [] then Panicked IllegalName
      else if Help o' = [] then Panicked IllegalHelp
      else Returned ())"

section \<open>counter.go: counters, partials and their family\<close>

text \<open>
  A \<^verbatim>\<open>float64\<close> is taken by its exact value, a rational number; NaN, the infinities and
  the sign of zero have no counterpart, and the arithmetic of \<^verbatim>\<open>Increment\<close>,
  \<^verbatim>\<open>IncrementBy\<close>, \<^verbatim>\<open>Decrement\<close> and \<^verbatim>\<open>DecrementBy\<close> (which rounds) is not embedded.
  \<^verbatim>\<open>CounterOptions\<close> embeds \<^verbatim>\<open>MetricOptions\<close>.
\<close>

type_synonym float64 = rat

record CounterOptions = MetricOptions +
  DefaultValue :: float64

text \<open>
  Counters live on the heap and the family holds pointers to them (\<^verbatim>\<open>[]*counter\<close>): an
  address is a number, the heap maps addresses to counters, and \<^verbatim>\<open>&counter{...}\<close> takes
  the next free address. The \<^verbatim>\<open>parent\<close> field of a counter and of a partial points to
  the one family of the \<open>world\<close> below, so it is not a field here. The locks are left
  out: every operation runs alone.
\<close>

type_synonym addr = nat

record counter =
  Labels :: "labelPair list"
  Value :: float64
  fingerprint :: "64 word"

record counterPartial =
  labels :: "labelPair list"

record counterFamily =
  children :: "addr list"
  childrenSet :: "64 word \<rightharpoonup> int"
  options :: CounterOptions
  name :: string
  fp :: "64 word"

record world =
  counters :: "addr \<Rightarrow> counter"
  allocated :: nat
  family :: counterFamily

subsection \<open>Slices\<close>

text \<open>
  \<^verbatim>\<open>s[lo:]\<close> and \<^verbatim>\<open>s[:hi]\<close> panic when the bound is negative or past the end. (Go lets
  \<open>hi\<close> run up to the capacity; where \<^verbatim>\<open>forget\<close> takes \<^verbatim>\<open>[:index-1]\<close> past the length it
  also takes \<^verbatim>\<open>[index+1:]\<close>, which panics, so the outcome is the same.)
\<close>

definition slice_from :: "'a list \<Rightarrow> int \<Rightarrow> 'a list outcome" where
  "slice_from s lo =
     (if 0 \<le> lo \<and> lo \<le> int (length s) then Returned (drop (nat lo) s)
      else Panicked IndexOutOfRange)"

definition slice_to :: "'a list \<Rightarrow> int \<Rightarrow> 'a list outcome" where
  "slice_to s hi =
     (if 0 \<le> hi \<and> hi \<le> int (length s) then Returned (take (nat hi) s)
      else Panicked IndexOutOfRange)"

definition index_at :: "'a list \<Rightarrow> int \<Rightarrow> 'a outcome" where
  "index_at s i =
     (if 0 \<le> i \<and> i < int (length s) then Returned (s ! nat i)
      else Panicked IndexOutOfRange)"

subsection \<open>counter\<close>

definition counter_Before :: "counter \<Rightarrow> counter \<Rightarrow> bool outcome" where
  "counter_Before c o' = labelPairs_Before (Labels c) (Labels o')"

definition counter_Set :: "addr \<Rightarrow> float64 \<Rightarrow> world \<Rightarrow> world" where
  "counter_Set c v w = w\<lparr>counters := (counters w)(c := (counters w c)\<lparr>Value := v\<rparr>)\<rparr>"

definition counter_Reset :: "addr \<Rightarrow> world \<Rightarrow> world" where
  "counter_Reset c w =
     w\<lparr>counters := (counters w)(c := (counters w c)\<lparr>Value := DefaultValue (options (family w))\<rparr>)\<rparr>"

text \<open>
  The \<^verbatim>\<open>%f\<close> verb prints a finite value in fixed point with six decimals, rounded to
  the nearest (ties to even) from the exact value.
\<close>

definition round_half_even :: "rat \<Rightarrow> int" where
  "round_half_even x =
     (let f = \<lfloor>x\<rfloor>; r = x - of_int f
      in if r < 1 / 2 then f else if 1 / 2 < r then f + 1 else if even f then f else f + 1)"

definition digit :: "nat \<Rightarrow> char" where
  "digit d = char_of (48 + d)"

fun decimal :: "nat \<Rightarrow> string" where
  "decimal n = (if n < 10 then [digit n] else decimal (n div 10) @ [digit (n mod 10)])"

definition fmt_f :: "float64 \<Rightarrow> string" where
  "fmt_f x =
     (let n = nat (round_half_even (\<bar>x\<bar> * 1000000));
          frac = decimal (n mod 1000000)
      in (if x < 0 then ''-'' else []) @ decimal (n div 1000000) @ ''.''
           @ replicate (6 - length frac) (CHR ''0'') @ frac)"

text \<open>\<^verbatim>\<open>fmt.Sprintf("{%s}: %f", c.Labels, c.Value)\<close>; \<^verbatim>\<open>%s\<close> calls \<^verbatim>\<open>labelPairs.String\<close>.\<close>

definition counter_asText :: "counter \<Rightarrow> string" where
  "counter_asText c = ''{'' @ labelPairs_String (Labels c) @ ''}: '' @ fmt_f (Value c)"

subsection \<open>counterFamily\<close>

definition counterChildren_Less :: "(addr \<Rightarrow> counter) \<Rightarrow> addr \<Rightarrow> addr \<Rightarrow> bool outcome" where
  "counterChildren_Less heap ci cj = counter_Before (heap ci) (heap cj)"

definition counterFamily_ForgetAll :: "world \<Rightarrow> world" where
  "counterFamily_ForgetAll w = w\<lparr>family := (family w)\<lparr>children := [], childrenSet := Map.empty\<rparr>\<rparr>"

text \<open>
  The \<^verbatim>\<open>switch index\<close> of \<^verbatim>\<open>forget\<close>, the same in the counter, gauge and summary
  families: \<^verbatim>\<open>children[1:]\<close> for index 0, \<^verbatim>\<open>children[:index-1]\<close> for the last index, and
  \<^verbatim>\<open>children[:index-1]\<close> followed by \<^verbatim>\<open>children[index+1:]\<close> otherwise.
\<close>

definition forget_switch :: "int \<Rightarrow> 'a list \<Rightarrow> 'a list outcome" where
  "forget_switch index children' =
     (if index = 0 then slice_from children' 1
      else if index = int (length children') - 1 then slice_to children' (index - 1)
      else bind (slice_to children' (index - 1))
             (\<lambda>front. bind (slice_from children' (index + 1))
               (\<lambda>back. Returned (front @ back))))"

text \<open>
  \<^verbatim>\<open>forget\<close>: the entry is deleted before the \<^verbatim>\<open>switch\<close>, so a panic on a slice bound
  leaves the family with the entry gone and the children as they were.
\<close>

definition counterFamily_forget :: "64 word \<Rightarrow> world \<Rightarrow> unit outcome \<times> world" where
  "counterFamily_forget fingerprint' w =
     (let f = family w in
      case childrenSet f fingerprint' of
        None \<Rightarrow> (Panicked MissingFingerprint, w)
      | Some index \<Rightarrow>
          (let f1 = f\<lparr>childrenSet := (childrenSet f)(fingerprint' := None)\<rparr> in
           case forget_switch index (children f1) of
             Panicked e \<Rightarrow> (Panicked e, w\<lparr>family := f1\<rparr>)
           | Returned children' \<Rightarrow> (Returned (), w\<lparr>family := f1\<lparr>children := children'\<rparr>\<rparr>)))"

definition counterFamily_find :: "64 word \<Rightarrow> world \<Rightarrow> addr option outcome" where
  "counterFamily_find fingerprint' w =
     (case childrenSet (family w) fingerprint' of
        None \<Rightarrow> Returned None
      | Some index \<Rightarrow> bind (index_at (children (family w)) index) (\<lambda>c. Returned (Some c)))"

text \<open>
  \<^verbatim>\<open>for i, c := range children { set[key(c)] = i }\<close>, the loop that closes both
  \<^verbatim>\<open>counterFamily.register\<close> and \<^verbatim>\<open>registry.register\<close>. It writes into the map it finds.
\<close>

definition reindex :: "('a \<Rightarrow> 'k) \<Rightarrow> ('k \<rightharpoonup> int) \<Rightarrow> 'a list \<Rightarrow> ('k \<rightharpoonup> int)" where
  "reindex key set' xs = foldl (\<lambda>m (i, c). m(key c \<mapsto> int i)) set' (enumerate 0 xs)"

text \<open>
  \<^verbatim>\<open>register\<close>. A panic of \<^verbatim>\<open>Less\<close> inside \<^verbatim>\<open>sort.Sort\<close> leaves the children appended and
  in the order the sort had reached; that order is not modelled (they are left as
  appended), and no theorem speaks of it.
\<close>

definition counterFamily_register :: "addr \<Rightarrow> world \<Rightarrow> unit outcome \<times> world" where
  "counterFamily_register c w =
     (let f = family w; appended = children f @ [c] in
      case sort_Sort (counterChildren_Less (counters w)) appended of
        Panicked e \<Rightarrow> (Panicked e, w\<lparr>family := f\<lparr>children := appended\<rparr>\<rparr>)
      | Returned sorted' \<Rightarrow>
          (Returned (),
           w\<lparr>family := f\<lparr>children := sorted',
                childrenSet := reindex (\<lambda>c. fingerprint (counters w c)) (childrenSet f) sorted'\<rparr>\<rparr>))"

fun pairs_of :: "string list \<Rightarrow> labelPair list" where
  "pairs_of (n # v # rest) = LabelPair n v # pairs_of rest"
| "pairs_of rest = []"

text \<open>
  \<^verbatim>\<open>NewChild\<close> and \<^verbatim>\<open>With\<close> take the labels as a flat list, name then value; the loop
  over pairs runs only on a list of even length.
\<close>

definition counterFamily_NewChild :: "string list \<Rightarrow> counterPartial outcome" where
  "counterFamily_NewChild labels' =
     (if length labels' mod 2 \<noteq> 0 then Panicked (IllegalLabels labels')
      else Returned \<lparr>labels = pairs_of labels'\<rparr>)"

definition counterFamily_shouldDump :: "counterFamily \<Rightarrow> bool" where
  "counterFamily_shouldDump f = (length (children f) > 0)"

text \<open>
  \<^verbatim>\<open>dumpText\<close> writes one \<^verbatim>\<open>fmt.Fprintf(w, "%s%s\n", f.name, child.asText())\<close> per child
  and returns the first error. The \<^verbatim>\<open>io.Writer\<close> is its \<^verbatim>\<open>Write\<close>: from the sink's state
  and the bytes to an error, if any, and the new state.
\<close>

fun dumpText_children ::
  "('s \<Rightarrow> string \<Rightarrow> 'e option \<times> 's) \<Rightarrow> string \<Rightarrow> (addr \<Rightarrow> counter) \<Rightarrow> addr list \<Rightarrow> 's
     \<Rightarrow> 'e option \<times> 's" where
  "dumpText_children write' nm heap [] s = (None, s)"
| "dumpText_children write' nm heap (child # rest) s =
     (case write' s (nm @ counter_asText (heap child) @ [CHR 0x0A]) of
        (Some err, s') \<Rightarrow> (Some err, s')
      | (None, s') \<Rightarrow> dumpText_children write' nm heap rest s')"

definition counterFamily_dumpText ::
  "('s \<Rightarrow> string \<Rightarrow> 'e option \<times> 's) \<Rightarrow> world \<Rightarrow> 's \<Rightarrow> 'e option \<times> 's" where
  "counterFamily_dumpText write' w s =
     dumpText_children write' (name (family w)) (counters w) (children (family w)) s"

text \<open>\<^verbatim>\<open>bytes.Buffer\<close>: \<^verbatim>\<open>Write\<close> appends and never fails.\<close>

definition Buffer_Write :: "string \<Rightarrow> string \<Rightarrow> unit option \<times> string" where
  "Buffer_Write buf data = (None, buf @ data)"

subsection \<open>counterPartial\<close>

definition counterPartial_With :: "string list \<Rightarrow> counterPartial \<Rightarrow> counterPartial outcome" where
  "counterPartial_With labels' p =
     (if length labels' mod 2 \<noteq> 0 then Panicked (IllegalLabels labels')
      else Returned (p\<lparr>labels := labels p @ pairs_of labels'\<rparr>))"

fun validate_pairs :: "(string \<rightharpoonup> bool) \<Rightarrow> labelPair list \<Rightarrow> unit outcome" where
  "validate_pairs unaccountedForDimensions [] = Returned ()"
| "validate_pairs unaccountedForDimensions (pair # rest) =
     (case unaccountedForDimensions (labelPair.Name pair) of
        None \<Rightarrow> Panicked (DoesNotMatchDimensions pair)
      | Some has \<Rightarrow>
          validate_pairs (unaccountedForDimensions(labelPair.Name pair := None)) rest)"

definition counterPartial_validate :: "counterPartial \<Rightarrow> counterFamily \<Rightarrow> unit outcome" where
  "counterPartial_validate p parent =
     (if length (labels p) \<noteq> length (Dimensions (options parent)) then Panicked WrongDimensions
      else validate_pairs
             (foldl (\<lambda>m dimension. m(dimension \<mapsto> True)) Map.empty (Dimensions (options parent)))
             (labels p))"

text \<open>
  \<^verbatim>\<open>Apply\<close> sorts the partial's labels in place; the partial is not used again below, so
  only the counter and the world are returned.
\<close>

definition counterPartial_Apply :: "counterPartial \<Rightarrow> world \<Rightarrow> addr outcome \<times> world" where
  "counterPartial_Apply p w =
     (case canonicalize (labels p) of
        Panicked e \<Rightarrow> (Panicked e, w)
      | Returned sorted' \<Rightarrow>
          (let fingerprint' = labelPairs_fingerprint sorted' in
           case counterFamily_find fingerprint' w of
             Panicked e \<Rightarrow> (Panicked e, w)
           | Returned (Some counter') \<Rightarrow> (Returned counter', w)
           | Returned None \<Rightarrow>
               (case counterPartial_validate (p\<lparr>labels := sorted'\<rparr>) (family w) of
                  Panicked e \<Rightarrow> (Panicked e, w)
                | Returned u \<Rightarrow>
                    (let c = allocated w;
                         w1 = w\<lparr>counters := (counters w)
                                  (c := \<lparr>Labels = sorted',
                                         Value = DefaultValue (options (family w)),
                                         fingerprint = fingerprint'\<rparr>),
                                allocated := Suc c\<rparr>
                     in case counterFamily_register c w1 of
                          (Panicked e, w2) \<Rightarrow> (Panicked e, w2)
                        | (Returned u', w2) \<Rightarrow> (Returned c, w2)))))"

text \<open>\<^verbatim>\<open>Forget\<close>: \<^verbatim>\<open>c.parent.forget(c.fingerprint)\<close>.\<close>

definition counter_Forget :: "addr \<Rightarrow> world \<Rightarrow> unit outcome \<times> world" where
  "counter_Forget c w = counterFamily_forget (fingerprint (counters w c)) w"

section \<open>The registry\<close>

text \<open>
  The registry holds \<^verbatim>\<open>Family\<close> interface values and calls two of their methods,
  \<^verbatim>\<open>familyName()\<close> and \<^verbatim>\<open>fingerprint()\<close>; a \<open>Family\<close> is what the two return. For a
  \<^verbatim>\<open>counterFamily\<close> (and, word for word, a gauge or summary family) they return the fields
  \<^verbatim>\<open>name\<close> and \<^verbatim>\<open>fp\<close>.
\<close>

record Family =
  Family_familyName :: string
  Family_fingerprint :: "64 word"

definition counterFamily_familyName :: "counterFamily \<Rightarrow> string" where
  "counterFamily_familyName f = name f"

definition counterFamily_fingerprint :: "counterFamily \<Rightarrow> 64 word" where
  "counterFamily_fingerprint f = fp f"

definition as_Family :: "counterFamily \<Rightarrow> Family" where
  "as_Family f = \<lparr>Family_familyName = counterFamily_familyName f,
                  Family_fingerprint = counterFamily_fingerprint f\<rparr>"

text \<open>\<^verbatim>\<open>familyName.fingerprint\<close>: the FNV-1a hash of the name. No function of the sources calls it.\<close>

definition familyName_fingerprint :: "string \<Rightarrow> 64 word" where
  "familyName_fingerprint n = fnv_Write fnv_New64a n"

record registry =
  families :: "Family list"
  familiesSet :: "64 word \<rightharpoonup> int"

definition families_Less :: "Family \<Rightarrow> Family \<Rightarrow> bool outcome" where
  "families_Less fi fj = Returned (Family_familyName fi < Family_familyName fj)"

definition newRegistry :: registry where
  "newRegistry = \<lparr>families = [], familiesSet = Map.empty\<rparr>"

definition registry_register :: "Family \<Rightarrow> registry \<Rightarrow> unit outcome \<times> registry" where
  "registry_register f r =
     (case familiesSet r (Family_fingerprint f) of
        Some has \<Rightarrow> (Panicked AlreadyRegistered, r)
      | None \<Rightarrow>
          (let appended = families r @ [f] in
           case sort_Sort families_Less appended of
             Panicked e \<Rightarrow> (Panicked e, r\<lparr>families := appended\<rparr>)
           | Returned sorted' \<Rightarrow>
               (Returned (),
                \<lparr>families = sorted',
                 familiesSet = reindex Family_fingerprint (familiesSet r) sorted'\<rparr>)))"

text \<open>
  \<^verbatim>\<open>NewCounterFamily\<close>, with the default registry passed in and out. The composite
  literal sets \<^verbatim>\<open>name\<close>, \<^verbatim>\<open>options\<close> and \<^verbatim>\<open>childrenSet\<close>; \<^verbatim>\<open>children\<close> and \<^verbatim>\<open>fp\<close> keep their
  zero values.
\<close>

definition NewCounterFamily :: "CounterOptions \<Rightarrow> registry \<Rightarrow> counterFamily outcome \<times> registry" where
  "NewCounterFamily o' defaultRegistry =
     (case MetricOptions_validate o' of
        Panicked e \<Rightarrow> (Panicked e, defaultRegistry)
      | Returned u \<Rightarrow>
          (let family' = \<lparr>children = [], childrenSet = Map.empty, options = o',
                          name = deriveName o', fp = 0\<rparr>
           in case registry_register (as_Family family') defaultRegistry of
                (Panicked e, r) \<Rightarrow> (Panicked e, r)
              | (Returned u', r) \<Rightarrow> (Returned family', r)))"

section \<open>Notions the statements use\<close>

text \<open>
  The world right after \<^verbatim>\<open>NewCounterFamily(o)\<close>: the family as the constructor's literal
  builds it, and no counter allocated yet.
\<close>

definition emptyHeap :: "addr \<Rightarrow> counter" where
  "emptyHeap = (\<lambda>a. \<lparr>Labels = [], Value = 0, fingerprint = 0\<rparr>)"

definition newWorld :: "CounterOptions \<Rightarrow> world" where
  "newWorld o' =
     \<lparr>counters = emptyHeap, allocated = 0,
      family = \<lparr>children = [], childrenSet = Map.empty, options = o',
                name = deriveName o', fp = 0\<rparr>\<rparr>"

text \<open>A pair as the key it is ordered by: name first, then value.\<close>

definition pair_key :: "labelPair \<Rightarrow> string \<times> string" where
  "pair_key p = (labelPair.Name p, labelPair.Value p)"

text \<open>The two panics of \<^verbatim>\<open>validate\<close>.\<close>

definition is_ValidationError :: "panic \<Rightarrow> bool" where
  "is_ValidationError e =
     (case e of WrongDimensions \<Rightarrow> True | DoesNotMatchDimensions pair \<Rightarrow> True | _ \<Rightarrow> False)"

text \<open>
  A family in order: the index holds exactly the fingerprints of the children, each with
  the position of its child; every child is an allocated counter, with as many labels as
  the family has dimensions. A new family is in order, and \<^verbatim>\<open>Apply\<close> and \<^verbatim>\<open>ForgetAll\<close>
  keep it so (lemmas \<open>family_ok_newWorld\<close>, \<open>Apply_family_ok\<close>, \<open>ForgetAll_family_ok\<close>).
\<close>

definition family_ok :: "world \<Rightarrow> bool" where
  "family_ok w \<longleftrightarrow>
     (\<forall>k i. childrenSet (family w) k = Some i \<longleftrightarrow>
        0 \<le> i \<and> i < int (length (children (family w)))
        \<and> fingerprint (counters w (children (family w) ! nat i)) = k)
     \<and> (\<forall>a \<in> set (children (family w)).
          a < allocated w
          \<and> length (Labels (counters w a)) = length (Dimensions (options (family w))))"

text \<open>
  The worlds of the examples: a counter family \<open>requests\<close> with the one dimension
  \<open>method\<close>, after \<^verbatim>\<open>NewChild("method", "GET").Apply()\<close>, and after
  \<^verbatim>\<open>NewChild("method", "POST").Apply()\<close> as well.
\<close>

definition example_options :: CounterOptions where
  "example_options =
     \<lparr>Name = ''requests'', Subsystem = [], Namespace = [], Dimensions = [''method''],
      Help = ''Requests by method.'', DefaultValue = 0\<rparr>"

definition world_GET :: world where
  "world_GET = snd (counterPartial_Apply \<lparr>labels = [LabelPair ''method'' ''GET'']\<rparr>
                      (newWorld example_options))"

definition world_GET_POST :: world where
  "world_GET_POST = snd (counterPartial_Apply \<lparr>labels = [LabelPair ''method'' ''POST'']\<rparr> world_GET)"

text \<open>
  The registry after \<^verbatim>\<open>register\<close> was called on each of \<open>fs\<close> in turn, from a new
  registry; a call that panics leaves the registry as it was.
\<close>

definition registry_after :: "Family list \<Rightarrow> registry" where
  "registry_after fs = foldl (\<lambda>r f. snd (registry_register f r)) newRegistry fs"

text \<open>Every registered family has its fingerprint in the index.\<close>

definition registry_ok :: "registry \<Rightarrow> bool" where
  "registry_ok r \<longleftrightarrow> Family_fingerprint ` set (families r) \<subseteq> dom (familiesSet r)"

section \<open>Facts about sorting labels\<close>

lemma inj_pair_key: "inj pair_key"
  by (rule injI) (simp add: pair_key_def labelPair.expand)

lemma labelPair_Before_key: "labelPair_Before a b \<longleftrightarrow> pair_key a < pair_key b"
  by (auto simp: labelPair_Before_def pair_key_def less_prod_def)

lemma labelPairs_Less_key: "labelPairs_Less a b = Returned (pair_key a < pair_key b)"
  by (simp add: labelPairs_Less_def labelPair_Before_key)

lemma sink_key:
  fixes key :: "'a \<Rightarrow> 'k::linorder"
  assumes lt: "\<And>a b. lt a b = Returned (key a < key b)"
  shows "\<exists>l. sink lt x left = Returned l \<and> mset l = add_mset x (mset left)
       \<and> (sorted (rev (map key left)) \<longrightarrow> sorted (rev (map key l)))"
proof (induction left)
  case Nil
  show ?case by simp
next
  case (Cons y left)
  from Cons.IH obtain l where l: "sink lt x left = Returned l"
    "mset l = add_mset x (mset left)"
    "sorted (rev (map key left)) \<longrightarrow> sorted (rev (map key l))"
    by blast
  have xy: "lt x y = Returned (key x < key y)" by (rule lt)
  show ?case
  proof (cases "key x < key y")
    case True
    have "set l = insert x (set left)"
      using l(2) by (metis set_mset_add_mset_insert set_mset_mset)
    with True l show ?thesis
      by (auto simp: xy sorted_append)
  next
    case False
    then show ?thesis
      by (auto simp: xy sorted_append)
  qed
qed

lemma insertionSort_key:
  fixes key :: "'a \<Rightarrow> 'k::linorder"
  assumes lt: "\<And>a b. lt a b = Returned (key a < key b)"
  shows "sorted (rev (map key left)) \<Longrightarrow>
   \<exists>ys. insertionSort lt left rest = Returned ys
       \<and> mset ys = mset left + mset rest \<and> sorted (map key ys)"
proof (induction rest arbitrary: left)
  case Nil
  then show ?case by (simp add: rev_map)
next
  case (Cons x rest)
  from sink_key [of lt key x left, OF lt] Cons.prems obtain l where
    l: "sink lt x left = Returned l" "mset l = add_mset x (mset left)"
       "sorted (rev (map key l))"
    by blast
  from Cons.IH [OF l(3)] l(1,2) show ?case by auto
qed

lemma sort_labels:
  "\<exists>ys. sort_Sort labelPairs_Less l = Returned ys \<and> mset ys = mset l \<and> sorted (map pair_key ys)"
  using insertionSort_key [of labelPairs_Less pair_key "[]" l, OF labelPairs_Less_key]
  by (simp add: sort_Sort_def)

lemma isSorted_down_key:
  fixes key :: "'a \<Rightarrow> 'k::linorder"
  assumes lt: "\<And>a b. lt a b = Returned (key a < key b)"
  shows "\<exists>b. isSorted_down lt r = Returned b \<and> (b \<longrightarrow> sorted (rev (map key r)))"
  using lt
proof (induction lt r rule: isSorted_down.induct)
  case (1 lt xi xj rest)
  have xy: "lt xi xj = Returned (key xi < key xj)" by (rule "1.prems")
  show ?case
  proof (cases "key xi < key xj")
    case True
    then have "isSorted_down lt (xi # xj # rest) = Returned False" by (simp add: xy)
    then show ?thesis by blast
  next
    case False
    have "\<exists>b. isSorted_down lt (xj # rest) = Returned b
             \<and> (b \<longrightarrow> sorted (rev (map key (xj # rest))))"
      using "1.IH" [of False, OF _ "1.prems"] by simp
    then obtain b where
      b: "isSorted_down lt (xj # rest) = Returned b"
         "b \<longrightarrow> sorted (rev (map key (xj # rest)))"
      by blast
    from False have "key xj \<le> key xi" by simp
    with b False show ?thesis
      by (auto simp: xy sorted_append intro: order_trans)
  qed
qed auto

lemma sort_IsSorted_labels:
  "\<exists>b. sort_IsSorted labelPairs_Less l = Returned b \<and> (b \<longrightarrow> sorted (map pair_key l))"
  using isSorted_down_key [of labelPairs_Less pair_key "rev l", OF labelPairs_Less_key]
  by (simp add: sort_IsSorted_def rev_map)

lemma canonicalize_sorted:
  "\<exists>c. canonicalize l = Returned c \<and> mset c = mset l \<and> sorted (map pair_key c)"
proof -
  from sort_IsSorted_labels [of l] obtain b where
    b: "sort_IsSorted labelPairs_Less l = Returned b" "b \<longrightarrow> sorted (map pair_key l)"
    by blast
  show ?thesis
  proof (cases b)
    case True
    with b show ?thesis by (simp add: canonicalize_def)
  next
    case False
    with b sort_labels [of l] show ?thesis by (simp add: canonicalize_def)
  qed
qed

lemma sorted_labels_unique:
  assumes "mset ys = mset zs" "sorted (map pair_key ys)" "sorted (map pair_key zs)"
  shows "ys = zs"
proof -
  have "mset (map pair_key ys) = mset (map pair_key zs)"
    using assms(1) by simp
  then have "sort (map pair_key zs) = map pair_key ys"
    using assms(2) by (rule properties_for_sort)
  moreover have "sort (map pair_key zs) = map pair_key zs"
    using assms(3) by (rule sorted_sort_id)
  ultimately have "map pair_key ys = map pair_key zs" by simp
  then show ?thesis
    using inj_pair_key by (simp add: inj_map_eq_map)
qed

lemma canonicalize_perm:
  assumes "mset l = mset l'"
  shows "canonicalize l = canonicalize l'"
proof -
  from canonicalize_sorted [of l] obtain c where
    c: "canonicalize l = Returned c" "mset c = mset l" "sorted (map pair_key c)" by blast
  from canonicalize_sorted [of l'] obtain c' where
    c': "canonicalize l' = Returned c'" "mset c' = mset l'" "sorted (map pair_key c')" by blast
  have "c = c'"
    using c(2,3) c'(2,3) assms by (intro sorted_labels_unique) simp_all
  with c(1) c'(1) show ?thesis by simp
qed

section \<open>Facts about validation\<close>

lemma validate_pairs_cases:
  "validate_pairs m ps = Returned () \<or> (\<exists>pair. validate_pairs m ps = Panicked (DoesNotMatchDimensions pair))"
  by (induction ps arbitrary: m) (auto split: option.splits)

lemma validate_pairs_Returned:
  "validate_pairs m ps = Returned u \<Longrightarrow>
     distinct (map labelPair.Name ps) \<and> labelPair.Name ` set ps \<subseteq> dom m"
proof (induction ps arbitrary: m)
  case Nil
  then show ?case by simp
next
  case (Cons pair ps)
  from Cons.prems obtain has where has: "m (labelPair.Name pair) = Some has"
    and rest: "validate_pairs (m(labelPair.Name pair := None)) ps = Returned u"
    by (auto split: option.splits)
  from Cons.IH [OF rest] have d: "distinct (map labelPair.Name ps)"
    and s: "labelPair.Name ` set ps \<subseteq> dom (m(labelPair.Name pair := None))"
    by blast+
  from s have "labelPair.Name pair \<notin> labelPair.Name ` set ps"
    and "labelPair.Name ` set ps \<subseteq> dom m"
    by auto
  with has d show ?case by auto
qed

lemma validate_pairs_ok:
  "distinct (map labelPair.Name ps) \<Longrightarrow> labelPair.Name ` set ps \<subseteq> dom m \<Longrightarrow>
     validate_pairs m ps = Returned ()"
proof (induction ps arbitrary: m)
  case Nil
  then show ?case by simp
next
  case (Cons pair ps)
  from Cons.prems obtain has where has: "m (labelPair.Name pair) = Some has"
    by auto
  have "labelPair.Name ` set ps \<subseteq> dom (m(labelPair.Name pair := None))"
    using Cons.prems by (auto simp: image_iff)
  moreover have "distinct (map labelPair.Name ps)"
    using Cons.prems by simp
  ultimately have "validate_pairs (m(labelPair.Name pair := None)) ps = Returned ()"
    by (rule Cons.IH [rotated])
  with has show ?case
    by simp
qed

lemma dom_unaccounted:
  "dom (foldl (\<lambda>m dimension. m(dimension \<mapsto> True)) m0 ds) = dom m0 \<union> set ds"
  by (induction ds arbitrary: m0) auto

lemma validate_Returned_iff:
  "counterPartial_validate p f = Returned () \<longleftrightarrow>
     length (labels p) = length (Dimensions (options f))
     \<and> distinct (map labelPair.Name (labels p))
     \<and> labelPair.Name ` set (labels p) \<subseteq> set (Dimensions (options f))"
proof -
  let ?m = "foldl (\<lambda>m dimension. m(dimension \<mapsto> True)) Map.empty (Dimensions (options f))"
  have dom: "dom ?m = set (Dimensions (options f))"
    by (simp add: dom_unaccounted)
  have "validate_pairs ?m (labels p) = Returned () \<longleftrightarrow>
          distinct (map labelPair.Name (labels p)) \<and> labelPair.Name ` set (labels p) \<subseteq> dom ?m"
    using validate_pairs_Returned [of ?m "labels p" "()"] validate_pairs_ok [of "labels p" ?m]
    by blast
  then show ?thesis
    unfolding dom by (auto simp: counterPartial_validate_def)
qed

lemma validate_cases:
  "counterPartial_validate p f = Returned ()
   \<or> (\<exists>e. counterPartial_validate p f = Panicked e \<and> is_ValidationError e)"
  using validate_pairs_cases
    [of "foldl (\<lambda>m dimension. m(dimension \<mapsto> True)) Map.empty (Dimensions (options f))" "labels p"]
  by (auto simp: counterPartial_validate_def is_ValidationError_def)

lemma validate_exact:
  assumes "counterPartial_validate p f = Returned ()"
  shows "labelPair.Name ` set (labels p) = set (Dimensions (options f))"
proof -
  let ?names = "labelPair.Name ` set (labels p)" and ?dims = "Dimensions (options f)"
  from assms have len: "length (labels p) = length ?dims"
    and dist: "distinct (map labelPair.Name (labels p))" and sub: "?names \<subseteq> set ?dims"
    by (simp_all add: validate_Returned_iff)
  have "card (set ?dims) \<le> length ?dims" by (rule card_length)
  also have "\<dots> = card ?names"
    using dist len by (metis distinct_card length_map set_map)
  finally have "card (set ?dims) \<le> card ?names" .
  with sub show ?thesis by (intro card_seteq) simp_all
qed

section \<open>Facts about sorting children and rebuilding the index\<close>

lemma labelPairs_Before_total:
  "length l \<le> length o' \<Longrightarrow> \<exists>b. labelPairs_Before l o' = Returned b"
  by (induction l o' rule: labelPairs_Before.induct) auto

lemma sink_total:
  assumes "\<And>b. b \<in> set left \<Longrightarrow> \<exists>v. lt x b = Returned v"
  shows "\<exists>l. sink lt x left = Returned l \<and> mset l = add_mset x (mset left)"
  using assms
proof (induction left)
  case Nil
  show ?case by simp
next
  case (Cons y left)
  from Cons.prems obtain v where v: "lt x y = Returned v" by auto
  from Cons obtain l where l: "sink lt x left = Returned l" "mset l = add_mset x (mset left)"
    by auto
  show ?case by (cases v) (simp_all add: v l)
qed

lemma insertionSort_total:
  assumes "\<And>a b. a \<in> set rest \<Longrightarrow> b \<in> set left \<union> set rest \<Longrightarrow> \<exists>v. lt a b = Returned v"
  shows "\<exists>ys. insertionSort lt left rest = Returned ys \<and> mset ys = mset left + mset rest"
  using assms
proof (induction rest arbitrary: left)
  case Nil
  show ?case by simp
next
  case (Cons x rest)
  have "\<exists>l. sink lt x left = Returned l \<and> mset l = add_mset x (mset left)"
    by (rule sink_total) (simp add: Cons.prems)
  then obtain l where l: "sink lt x left = Returned l" "mset l = add_mset x (mset left)"
    by blast
  then have set_l: "set l = insert x (set left)"
    by (metis set_mset_add_mset_insert set_mset_mset)
  have "\<exists>ys. insertionSort lt l rest = Returned ys \<and> mset ys = mset l + mset rest"
    by (rule Cons.IH) (auto simp: set_l intro: Cons.prems)
  with l show ?case by auto
qed

lemma sort_Sort_total:
  assumes "\<And>a b. a \<in> set xs \<Longrightarrow> b \<in> set xs \<Longrightarrow> \<exists>v. lt a b = Returned v"
  shows "\<exists>ys. sort_Sort lt xs = Returned ys \<and> mset ys = mset xs"
  using insertionSort_total [of xs "[]" lt] assms by (simp add: sort_Sort_def)

lemma reindex_snoc:
  "reindex key m (xs @ [x]) = (reindex key m xs)(key x \<mapsto> int (length xs))"
  by (simp add: reindex_def enumerate_append_eq)

lemma reindex_distinct:
  "distinct (map key xs) \<Longrightarrow>
   reindex key m xs k = Some i \<longleftrightarrow>
     (0 \<le> i \<and> i < int (length xs) \<and> key (xs ! nat i) = k) \<or> (k \<notin> key ` set xs \<and> m k = Some i)"
proof (induction xs arbitrary: i rule: rev_induct)
  case Nil
  show ?case by (auto simp: reindex_def)
next
  case (snoc x xs)
  from snoc.prems have d: "distinct (map key xs)" and nx: "key x \<notin> key ` set xs"
    by auto
  note IH = snoc.IH [OF d]
  show ?case
  proof (cases "k = key x")
    case True
    have "\<And>j. j < length xs \<Longrightarrow> key (xs ! j) \<noteq> key x"
      using nx by (metis image_eqI nth_mem)
    then have "0 \<le> i \<and> i < int (length (xs @ [x])) \<and> key ((xs @ [x]) ! nat i) = key x
           \<longleftrightarrow> i = int (length xs)"
      by (auto simp: nth_append)
    with True show ?thesis by (auto simp: reindex_snoc)
  next
    case False
    have "0 \<le> i \<and> i < int (length (xs @ [x])) \<and> key ((xs @ [x]) ! nat i) = k
           \<longleftrightarrow> 0 \<le> i \<and> i < int (length xs) \<and> key (xs ! nat i) = k"
      using False by (auto simp: nth_append)
    with False IH [of i] show ?thesis by (auto simp: reindex_snoc)
  qed
qed

lemma family_ok_distinct:
  assumes "family_ok w"
  shows "distinct (map (\<lambda>c. fingerprint (counters w c)) (children (family w)))"
proof -
  let ?cs = "children (family w)"
  have "i = j" if "i < length ?cs" "j < length ?cs"
    "fingerprint (counters w (?cs ! i)) = fingerprint (counters w (?cs ! j))" for i j
  proof -
    from assms that have "childrenSet (family w) (fingerprint (counters w (?cs ! j))) = Some (int i)"
      "childrenSet (family w) (fingerprint (counters w (?cs ! j))) = Some (int j)"
      unfolding family_ok_def by auto
    then show ?thesis by simp
  qed
  then show ?thesis by (auto simp: distinct_conv_nth)
qed

lemma family_ok_dom:
  assumes "family_ok w" "a \<in> set (children (family w))"
  shows "childrenSet (family w) (fingerprint (counters w a)) \<noteq> None"
proof -
  from assms(2) obtain i where "i < length (children (family w))" "children (family w) ! i = a"
    by (auto simp: in_set_conv_nth)
  with assms(1) have "childrenSet (family w) (fingerprint (counters w a)) = Some (int i)"
    unfolding family_ok_def by auto
  then show ?thesis by simp
qed

lemma register_ok:
  assumes ok: "family_ok w"
    and absent: "childrenSet (family w) (fingerprint cnt) = None"
    and len: "length (Labels cnt) = length (Dimensions (options (family w)))"
    and w1: "w1 = w\<lparr>counters := (counters w)(allocated w := cnt), allocated := Suc (allocated w)\<rparr>"
  shows "\<exists>w2. counterFamily_register (allocated w) w1 = (Returned (), w2) \<and> family_ok w2
           \<and> mset (children (family w2)) = add_mset (allocated w) (mset (children (family w)))
           \<and> counters w2 = counters w1 \<and> allocated w2 = allocated w1
           \<and> options (family w2) = options (family w)"
proof -
  let ?a = "allocated w" and ?cs = "children (family w)"
  let ?key = "\<lambda>c. fingerprint (counters w1 c)"
  from ok have below: "\<And>c. c \<in> set ?cs \<Longrightarrow> c < ?a"
    and lens: "\<And>c. c \<in> set ?cs \<Longrightarrow> length (Labels (counters w c)) = length (Dimensions (options (family w)))"
    unfolding family_ok_def by auto
  have old: "counters w1 c = counters w c" if "c \<in> set ?cs" for c
    using below [OF that] by (simp add: w1)
  have new: "counters w1 ?a = cnt" by (simp add: w1)
  have all_len: "length (Labels (counters w1 c)) = length (Dimensions (options (family w)))"
    if "c \<in> set (?cs @ [?a])" for c
    using that old lens new len by auto
  have "\<exists>v. counterChildren_Less (counters w1) c d = Returned v"
    if "c \<in> set (?cs @ [?a])" "d \<in> set (?cs @ [?a])" for c d
    unfolding counterChildren_Less_def counter_Before_def
    by (rule labelPairs_Before_total) (simp add: all_len [OF that(1)] all_len [OF that(2)])
  from sort_Sort_total [of "?cs @ [?a]" "counterChildren_Less (counters w1)", OF this]
  obtain ys where ys: "sort_Sort (counterChildren_Less (counters w1)) (?cs @ [?a]) = Returned ys"
    "mset ys = mset (?cs @ [?a])"
    by blast
  from ys(2) have set_ys: "set ys = set (?cs @ [?a])" by (rule mset_eq_setD)
  define w2 where "w2 = w1\<lparr>family := (family w1)\<lparr>children := ys,
      childrenSet := reindex ?key (childrenSet (family w1)) ys\<rparr>\<rparr>"
  have fam1: "family w1 = family w" by (simp add: w1)
  have reg: "counterFamily_register ?a w1 = (Returned (), w2)"
    by (simp add: counterFamily_register_def fam1 ys(1) w2_def Let_def)
  have key_old: "map ?key ?cs = map (\<lambda>c. fingerprint (counters w c)) ?cs"
    using old by simp
  have notin: "fingerprint cnt \<notin> ?key ` set ?cs"
  proof
    assume "fingerprint cnt \<in> ?key ` set ?cs"
    then obtain c where c: "c \<in> set ?cs" "fingerprint (counters w c) = fingerprint cnt"
      using old by auto
    with family_ok_dom [OF ok c(1)] absent show False by simp
  qed
  have "(\<lambda>c. fingerprint (counters w c)) ` set ?cs = ?key ` set ?cs"
    using old by (intro image_cong) simp_all
  then have "distinct (map ?key (?cs @ [?a]))"
    using family_ok_distinct [OF ok] notin by (simp add: key_old new)
  moreover have "mset (map ?key ys) = mset (map ?key (?cs @ [?a]))"
    using ys(2) by (metis mset_map)
  ultimately have dist: "distinct (map ?key ys)"
    by (metis mset_eq_imp_distinct_iff)
  have stale: "k \<in> ?key ` set ys" if "childrenSet (family w) k = Some i" for k i
  proof -
    from ok that have "0 \<le> i" "i < int (length ?cs)"
      "fingerprint (counters w (?cs ! nat i)) = k"
      unfolding family_ok_def by blast+
    then have "?cs ! nat i \<in> set ?cs" "?key (?cs ! nat i) = k"
      using old by auto
    then show ?thesis using set_ys by auto
  qed
  have idx: "childrenSet (family w2) k = Some i \<longleftrightarrow>
        0 \<le> i \<and> i < int (length ys) \<and> ?key (ys ! nat i) = k" for k i
    using reindex_distinct [OF dist, of "childrenSet (family w)" k i] stale [of k i]
    by (auto simp: w2_def fam1)
  have "family_ok w2"
    unfolding family_ok_def
  proof (intro conjI allI ballI)
    fix k i
    show "childrenSet (family w2) k = Some i \<longleftrightarrow>
       0 \<le> i \<and> i < int (length (children (family w2)))
       \<and> fingerprint (counters w2 (children (family w2) ! nat i)) = k"
      using idx [of k i] by (simp add: w2_def)
  next
    fix c assume "c \<in> set (children (family w2))"
    then have c: "c \<in> set (?cs @ [?a])" using set_ys by (simp add: w2_def)
    then show "c < allocated w2" using below [of c] by (auto simp: w2_def w1)
  next
    fix c assume "c \<in> set (children (family w2))"
    then have c: "c \<in> set (?cs @ [?a])" using set_ys by (simp add: w2_def)
    from all_len [OF c]
    show "length (Labels (counters w2 c)) = length (Dimensions (options (family w2)))"
      by (simp add: w2_def fam1)
  qed
  moreover have "mset (children (family w2)) = add_mset ?a (mset ?cs)"
    using ys(2) by (simp add: w2_def)
  ultimately show ?thesis
    using reg by (auto simp: w2_def fam1)
qed

section \<open>Facts about Apply\<close>

lemma Apply_found:
  assumes "family_ok w" "canonicalize L = Returned c"
    "childrenSet (family w) (labelPairs_fingerprint c) = Some i"
  shows "counterPartial_Apply \<lparr>labels = L\<rparr> w = (Returned (children (family w) ! nat i), w)"
proof -
  from assms(1,3) have "0 \<le> i" "i < int (length (children (family w)))"
    unfolding family_ok_def by blast+
  with assms(2,3) show ?thesis
    by (simp add: counterPartial_Apply_def counterFamily_find_def index_at_def)
qed

lemma Apply_new:
  assumes ok: "family_ok w" and canon: "canonicalize L = Returned c"
    and absent: "childrenSet (family w) (labelPairs_fingerprint c) = None"
    and valid: "counterPartial_validate \<lparr>labels = c\<rparr> (family w) = Returned ()"
  shows "\<exists>w2. counterPartial_Apply \<lparr>labels = L\<rparr> w = (Returned (allocated w), w2)
           \<and> family_ok w2
           \<and> mset (children (family w2)) = add_mset (allocated w) (mset (children (family w)))
           \<and> counters w2 (allocated w)
               = \<lparr>Labels = c, Value = DefaultValue (options (family w)),
                  fingerprint = labelPairs_fingerprint c\<rparr>"
proof -
  define cnt where "cnt = \<lparr>Labels = c, Value = DefaultValue (options (family w)),
                  fingerprint = labelPairs_fingerprint c\<rparr>"
  define w1 where "w1 = w\<lparr>counters := (counters w)(allocated w := cnt), allocated := Suc (allocated w)\<rparr>"
  from valid have len: "length (Labels cnt) = length (Dimensions (options (family w)))"
    by (simp add: validate_Returned_iff cnt_def)
  from absent have abs: "childrenSet (family w) (fingerprint cnt) = None"
    by (simp add: cnt_def)
  from register_ok [OF ok abs len w1_def] obtain w2 where
    w2: "counterFamily_register (allocated w) w1 = (Returned (), w2)" "family_ok w2"
      "mset (children (family w2)) = add_mset (allocated w) (mset (children (family w)))"
      "counters w2 = counters w1"
    by blast
  have "counterPartial_Apply \<lparr>labels = L\<rparr> w = (Returned (allocated w), w2)"
    using canon absent valid w2(1)
    by (simp add: counterPartial_Apply_def counterFamily_find_def Let_def w1_def cnt_def)
  moreover have "counters w2 (allocated w) = cnt"
    by (simp add: w2(4) w1_def)
  ultimately show ?thesis using w2(2,3) unfolding cnt_def by blast
qed

lemma Apply_twice:
  assumes ok: "family_ok w" and canon: "canonicalize L = Returned c"
    and canon': "canonicalize L' = Returned c'"
    and same: "labelPairs_fingerprint c' = labelPairs_fingerprint c"
    and valid: "childrenSet (family w) (labelPairs_fingerprint c) = None \<Longrightarrow>
                  counterPartial_validate \<lparr>labels = c\<rparr> (family w) = Returned ()"
  shows "\<exists>a w1. counterPartial_Apply \<lparr>labels = L\<rparr> w = (Returned a, w1)
           \<and> counterPartial_Apply \<lparr>labels = L'\<rparr> w1 = (Returned a, w1)
           \<and> a \<in> set (children (family w1))
           \<and> (childrenSet (family w) (labelPairs_fingerprint c) \<noteq> None \<longrightarrow> w1 = w)
           \<and> (childrenSet (family w) (labelPairs_fingerprint c) = None \<longrightarrow>
                Labels (counters w1 a) = c
                \<and> length (children (family w1)) = Suc (length (children (family w))))"
proof (cases "childrenSet (family w) (labelPairs_fingerprint c)")
  case (Some i)
  from ok Some have "0 \<le> i" "i < int (length (children (family w)))"
    unfolding family_ok_def by blast+
  then have "children (family w) ! nat i \<in> set (children (family w))" by simp
  with Apply_found [OF ok canon Some] Apply_found [OF ok canon'] Some same show ?thesis
    by simp
next
  case None
  from Apply_new [OF ok canon None valid [OF None]] obtain w2 where
    w2: "counterPartial_Apply \<lparr>labels = L\<rparr> w = (Returned (allocated w), w2)" "family_ok w2"
      "mset (children (family w2)) = add_mset (allocated w) (mset (children (family w)))"
      "counters w2 (allocated w)
         = \<lparr>Labels = c, Value = DefaultValue (options (family w)),
            fingerprint = labelPairs_fingerprint c\<rparr>"
    by blast
  from w2(3) have "allocated w \<in> set (children (family w2))"
    by (metis set_mset_mset union_single_eq_member)
  then obtain j where j: "j < length (children (family w2))"
    "children (family w2) ! j = allocated w"
    by (auto simp: in_set_conv_nth)
  with w2(2,4) have "childrenSet (family w2) (labelPairs_fingerprint c) = Some (int j)"
    unfolding family_ok_def by auto
  with same have "childrenSet (family w2) (labelPairs_fingerprint c') = Some (int j)"
    by simp
  from Apply_found [OF w2(2) canon' this] j(2)
  have second: "counterPartial_Apply \<lparr>labels = L'\<rparr> w2 = (Returned (allocated w), w2)"
    by simp
  from w2(3) have "length (children (family w2)) = Suc (length (children (family w)))"
    by (metis size_add_mset size_mset)
  with w2(1,4) second \<open>allocated w \<in> set (children (family w2))\<close> None show ?thesis
    by simp
qed

lemma family_ok_newWorld: "family_ok (newWorld o')"
  by (simp add: family_ok_def newWorld_def)

lemma ForgetAll_family_ok: "family_ok (counterFamily_ForgetAll w)"
  by (simp add: family_ok_def counterFamily_ForgetAll_def)

lemma Apply_family_ok:
  assumes ok: "family_ok w" and ap: "counterPartial_Apply p w = (r, w')"
  shows "family_ok w'"
proof -
  obtain L where p: "p = \<lparr>labels = L\<rparr>" by (cases p) simp
  from canonicalize_sorted [of L] obtain c where
    c: "canonicalize L = Returned c" by blast
  show ?thesis
  proof (cases "childrenSet (family w) (labelPairs_fingerprint c)")
    case (Some i)
    from Apply_found [OF ok c Some] ap p ok show ?thesis by simp
  next
    case None
    show ?thesis
    proof (cases "counterPartial_validate \<lparr>labels = c\<rparr> (family w)")
      case (Returned u)
      from Apply_new [OF ok c None] Returned ap p show ?thesis by auto
    next
      case (Panicked e)
      with c None ap ok show ?thesis
        by (simp add: p counterPartial_Apply_def counterFamily_find_def)
    qed
  qed
qed

lemma canonicalize_single: "canonicalize [p] = Returned [p]"
  by (simp add: canonicalize_def sort_IsSorted_def)

text \<open>Every list of pairs is what \<^verbatim>\<open>NewChild\<close> builds from its names and values in turn.\<close>

lemma pairs_of_flat:
  "pairs_of (concat (map (\<lambda>p. [labelPair.Name p, labelPair.Value p]) L)) = L"
  by (induction L) simp_all

lemma NewChild_flat:
  "counterFamily_NewChild (concat (map (\<lambda>p. [labelPair.Name p, labelPair.Value p]) L))
     = Returned \<lparr>labels = L\<rparr>"
proof -
  have "even (length (concat (map (\<lambda>p. [labelPair.Name p, labelPair.Value p]) L)))"
    by (induction L) simp_all
  then show ?thesis
    by (simp add: counterFamily_NewChild_def pairs_of_flat)
qed

section \<open>The example worlds, evaluated\<close>

lemma fingerprint_GET:
  "labelPairs_fingerprint [LabelPair ''method'' ''GET''] = 5558167925340807500"
  by (simp add: labelPairs_fingerprint_def fnv_Write_def fnv_New64a_def offset64_def prime64_def)

lemma fingerprint_POST:
  "labelPairs_fingerprint [LabelPair ''method'' ''POST''] = 5315526188251185722"
  by (simp add: labelPairs_fingerprint_def fnv_Write_def fnv_New64a_def offset64_def prime64_def)

lemmas Apply_unfold =
  counterPartial_Apply_def canonicalize_def sort_IsSorted_def counterFamily_find_def
  counterPartial_validate_def counterFamily_register_def sort_Sort_def counterChildren_Less_def
  counter_Before_def reindex_def labelPair_Before_def labelPairs_Less_def index_at_def

lemma world_GET_facts:
  "children (family world_GET) = [0]"
  "childrenSet (family world_GET) = [5558167925340807500 \<mapsto> 0]"
  "options (family world_GET) = example_options"
  "name (family world_GET) = ''requests''"
  "allocated world_GET = 1"
  "counters world_GET 0 = \<lparr>Labels = [LabelPair ''method'' ''GET''], Value = 0,
                            fingerprint = 5558167925340807500\<rparr>"
  by (simp_all add: world_GET_def newWorld_def example_options_def deriveName_def
        Apply_unfold fingerprint_GET)

lemma world_GET_POST_facts:
  "children (family world_GET_POST) = [0, 1]"
  "childrenSet (family world_GET_POST)
     = [5558167925340807500 \<mapsto> 0, 5315526188251185722 \<mapsto> 1]"
  "options (family world_GET_POST) = example_options"
  "allocated world_GET_POST = 2"
  "counters world_GET_POST 0 = \<lparr>Labels = [LabelPair ''method'' ''GET''], Value = 0,
                            fingerprint = 5558167925340807500\<rparr>"
  "counters world_GET_POST (Suc 0) = \<lparr>Labels = [LabelPair ''method'' ''POST''], Value = 0,
                            fingerprint = 5315526188251185722\<rparr>"
  by (simp_all add: world_GET_POST_def world_GET_facts example_options_def
        Apply_unfold fingerprint_POST)

section \<open>Facts about the registry\<close>

lemma families_Less_key:
  "families_Less a b = Returned (Family_familyName a < Family_familyName b)"
  by (simp add: families_Less_def)

lemma sort_families:
  "\<exists>ys. sort_Sort families_Less xs = Returned ys \<and> mset ys = mset xs"
  using insertionSort_key [of families_Less Family_familyName "[]" xs, OF families_Less_key]
  by (auto simp: sort_Sort_def)

lemma reindex_dom: "dom (reindex key m xs) = dom m \<union> key ` set xs"
proof (induction xs rule: rev_induct)
  case Nil
  show ?case by (simp add: reindex_def)
next
  case (snoc x xs)
  have "dom (reindex key m (xs @ [x])) = insert (key x) (dom (reindex key m xs))"
    by (simp add: reindex_snoc)
  with snoc show ?case by auto
qed

lemma registry_register_ok:
  assumes "registry_ok r"
  shows "registry_ok (snd (registry_register f r))"
proof (cases "familiesSet r (Family_fingerprint f)")
  case (Some has)
  with assms show ?thesis by (simp add: registry_register_def)
next
  case None
  from sort_families [of "families r @ [f]"] obtain ys where
    ys: "sort_Sort families_Less (families r @ [f]) = Returned ys"
    "mset ys = mset (families r @ [f])" by blast
  from None ys(1) show ?thesis
    by (simp add: registry_register_def registry_ok_def reindex_dom)
qed

lemma registry_after_ok: "registry_ok (registry_after fs)"
proof (induction fs rule: rev_induct)
  case Nil
  show ?case by (simp add: registry_after_def registry_ok_def newRegistry_def)
next
  case (snoc f fs)
  from registry_register_ok [OF snoc, of f] show ?case
    by (simp add: registry_after_def)
qed

lemma register_duplicate:
  assumes "registry_ok r" "g \<in> set (families r)" "Family_fingerprint g = Family_fingerprint f"
  shows "registry_register f r = (Panicked AlreadyRegistered, r)"
proof -
  from assms have "Family_fingerprint f \<in> dom (familiesSet r)"
    unfolding registry_ok_def by force
  then show ?thesis by (auto simp: registry_register_def)
qed

lemma NewCounterFamily_Returned:
  assumes "NewCounterFamily o' r0 = (Returned fam, r1)"
  shows "fam = family (newWorld o')"
  using assms
  by (auto simp: NewCounterFamily_def newWorld_def Let_def split: outcome.splits prod.splits)

section \<open>Facts about the text dump\<close>

lemma digit_0: "digit 0 = CHR ''0''"
  by (simp add: digit_def) code_simp

lemma digit_5: "digit 5 = CHR ''5''"
  by (simp add: digit_def) code_simp

lemma replicate_5: "replicate 5 c = [c, c, c, c, c]"
  by (simp add: numeral_eq_Suc)

lemma fmt_f_5: "fmt_f 5 = ''5.000000''"
  by (simp add: fmt_f_def round_half_even_def digit_0 digit_5 replicate_5)

lemma dumpText_children_Buffer:
  "dumpText_children Buffer_Write nm heap cs buf
     = (None, buf @ concat (map (\<lambda>c. nm @ counter_asText (heap c) @ [CHR 0x0A]) cs))"
  by (induction cs arbitrary: buf) (simp_all add: Buffer_Write_def)

lemma labelPairs_Strings_from:
  "foldl (\<lambda>s p. s @ [labelPair_String p]) acc l = acc @ map labelPair_String l"
  by (induction l arbitrary: acc) simp_all

lemma labelPairs_Strings_map: "labelPairs_Strings l = map labelPair_String l"
  by (simp add: labelPairs_Strings_def labelPairs_Strings_from)

lemma counter_asText_eq:
  "counter_asText c
     = ''{'' @ strings_Join (map (\<lambda>p. labelPair.Name p @ ''='' @ labelPair.Value p) (Labels c)) '',''
         @ ''}: '' @ fmt_f (Value c)"
  by (simp add: counter_asText_def labelPairs_String_def labelPairs_Strings_map
        labelPair_String_def [abs_def])

lemma Apply_new_labels:
  assumes canon: "canonicalize L = Returned c"
    and absent: "childrenSet (family w) (labelPairs_fingerprint c) = None"
    and ap: "counterPartial_Apply \<lparr>labels = L\<rparr> w = (Returned a, w')"
  shows "Labels (counters w' a) = c"
proof (cases "counterPartial_validate \<lparr>labels = c\<rparr> (family w)")
  case (Panicked e)
  with canon absent ap show ?thesis
    by (simp add: counterPartial_Apply_def counterFamily_find_def)
next
  case (Returned u)
  with canon absent ap show ?thesis
    by (auto simp: counterPartial_Apply_def counterFamily_find_def counterFamily_register_def
          Let_def split: outcome.splits)
qed

section \<open>Claims about label sets\<close>

text \<open>
  C3. Sorting then fingerprinting a label set gives the same 64-bit fingerprint for every
  rearrangement of its pairs: canonicalizing \<open>L\<close> and any list \<open>L'\<close> with the same pairs
  (the same multiset) returns one and the same sorted list, hence one fingerprint.
\<close>

theorem fingerprint_canonicalize_permutation:
  assumes "mset L' = mset L"
  shows "\<exists>c c'. canonicalize L = Returned c \<and> canonicalize L' = Returned c'
           \<and> labelPairs_fingerprint c = labelPairs_fingerprint c'"
  using canonicalize_perm [OF assms] canonicalize_sorted [of L] by auto

theorem fingerprint_canonicalize_permutation_witness:
  "mset [LabelPair ''a'' ''2'', LabelPair ''b'' ''1''] = mset [LabelPair ''b'' ''1'', LabelPair ''a'' ''2'']
   \<and> (\<exists>c c'. canonicalize [LabelPair ''b'' ''1'', LabelPair ''a'' ''2''] = Returned c
         \<and> canonicalize [LabelPair ''a'' ''2'', LabelPair ''b'' ''1''] = Returned c'
         \<and> labelPairs_fingerprint c = labelPairs_fingerprint c')"
proof -
  have h: "mset [LabelPair ''a'' ''2'', LabelPair ''b'' ''1'']
         = mset [LabelPair ''b'' ''1'', LabelPair ''a'' ''2'']"
    by simp
  show ?thesis
    using h fingerprint_canonicalize_permutation [OF h] by simp
qed

text \<open>
  C5 (the code at the failing input). \<^verbatim>\<open>labelPairs.Before\<close> answers true as soon as any
  position has a smaller pair, whatever stood before it. For \<open>[(a,2),(b,1)]\<close> and
  \<open>[(a,1),(b,2)]\<close>, two sorted label sets over the dimensions \<open>a\<close> and \<open>b\<close>, the first
  difference is at index 0, where the second list's pair is the smaller one; yet each
  list is \<^verbatim>\<open>Before\<close> the other.
\<close>

theorem labelPairs_Before_both_ways:
  "labelPairs_Before [LabelPair ''a'' ''2'', LabelPair ''b'' ''1'']
                     [LabelPair ''a'' ''1'', LabelPair ''b'' ''2''] = Returned True
   \<and> labelPairs_Before [LabelPair ''a'' ''1'', LabelPair ''b'' ''2'']
                       [LabelPair ''a'' ''2'', LabelPair ''b'' ''1''] = Returned True
   \<and> labelPair_Before (LabelPair ''a'' ''1'') (LabelPair ''a'' ''2'')
   \<and> \<not> labelPair_Before (LabelPair ''a'' ''2'') (LabelPair ''a'' ''1'')"
  by (simp add: labelPair_Before_def)

section \<open>Claims about Apply\<close>

text \<open>
  C2, as the code has it. In a family in order whose dimensions are distinct, take a label
  set \<open>L\<close> with as many pairs as the family has dimensions and exactly the dimensions as
  names, and any rearrangement \<open>L'\<close> of it. Two \<^verbatim>\<open>Apply\<close> calls in a row, one on \<open>L\<close> and
  one on \<open>L'\<close>, return the same address (the same counter object), the second without
  changing anything; the family gains at most one child, and a family that had no child
  has exactly one afterwards.
\<close>

theorem Apply_twice_same_instance:
  assumes ok: "family_ok w"
    and dims: "distinct (Dimensions (options (family w)))"
    and size: "length L = length (Dimensions (options (family w)))"
    and names: "labelPair.Name ` set L = set (Dimensions (options (family w)))"
    and perm: "mset L' = mset L"
  shows "\<exists>a w1. counterPartial_Apply \<lparr>labels = L\<rparr> w = (Returned a, w1)
           \<and> counterPartial_Apply \<lparr>labels = L'\<rparr> w1 = (Returned a, w1)
           \<and> length (children (family w)) \<le> length (children (family w1))
           \<and> length (children (family w1)) \<le> Suc (length (children (family w)))
           \<and> (children (family w) = [] \<longrightarrow> length (children (family w1)) = 1)"
proof -
  from canonicalize_sorted [of L] obtain c where
    c: "canonicalize L = Returned c" "mset c = mset L" by blast
  from canonicalize_perm [OF perm] c(1) have c': "canonicalize L' = Returned c" by simp
  from c(2) have len: "length c = length L" and set: "set c = set L"
    by (metis size_mset, metis set_mset_mset)
  have "card (labelPair.Name ` set c) = length (map labelPair.Name c)"
    using dims size names len set by (simp add: distinct_card)
  then have "distinct (map labelPair.Name c)"
    by (metis card_distinct set_map)
  with size names len set
  have valid: "counterPartial_validate \<lparr>labels = c\<rparr> (family w) = Returned ()"
    by (simp add: validate_Returned_iff)
  from Apply_twice [OF ok c(1) c' refl valid] obtain a w1 where
    r: "counterPartial_Apply \<lparr>labels = L\<rparr> w = (Returned a, w1)"
       "counterPartial_Apply \<lparr>labels = L'\<rparr> w1 = (Returned a, w1)"
       "childrenSet (family w) (labelPairs_fingerprint c) \<noteq> None \<longrightarrow> w1 = w"
       "childrenSet (family w) (labelPairs_fingerprint c) = None \<longrightarrow>
          length (children (family w1)) = Suc (length (children (family w)))"
    by auto
  have absent: "childrenSet (family w) (labelPairs_fingerprint c) = None"
    if "children (family w) = []"
  proof (cases "childrenSet (family w) (labelPairs_fingerprint c)")
    case (Some i)
    with ok that show ?thesis unfolding family_ok_def by auto
  qed simp
  have "length (children (family w)) \<le> length (children (family w1))"
    and "length (children (family w1)) \<le> Suc (length (children (family w)))"
    using r(3,4) by (cases "childrenSet (family w) (labelPairs_fingerprint c)"; simp)+
  with r(1,2,4) absent show ?thesis by auto
qed

theorem Apply_twice_same_instance_witness:
  "family_ok (newWorld \<lparr>Name = ''requests'', Subsystem = [], Namespace = [],
                        Dimensions = [''a'', ''b''], Help = ''h'', DefaultValue = 0\<rparr>)
   \<and> mset [LabelPair ''a'' ''2'', LabelPair ''b'' ''1''] = mset [LabelPair ''b'' ''1'', LabelPair ''a'' ''2'']
   \<and> (\<exists>a w1.
         counterPartial_Apply \<lparr>labels = [LabelPair ''b'' ''1'', LabelPair ''a'' ''2'']\<rparr>
           (newWorld \<lparr>Name = ''requests'', Subsystem = [], Namespace = [],
                      Dimensions = [''a'', ''b''], Help = ''h'', DefaultValue = 0\<rparr>)
           = (Returned a, w1)
         \<and> counterPartial_Apply \<lparr>labels = [LabelPair ''a'' ''2'', LabelPair ''b'' ''1'']\<rparr> w1
           = (Returned a, w1)
         \<and> length (children (family w1)) = 1)"
proof -
  let ?w = "newWorld \<lparr>Name = ''requests'', Subsystem = [], Namespace = [],
                      Dimensions = [''a'', ''b''], Help = ''h'', DefaultValue = 0\<rparr>"
  let ?L = "[LabelPair ''b'' ''1'', LabelPair ''a'' ''2'']"
  let ?L' = "[LabelPair ''a'' ''2'', LabelPair ''b'' ''1'']"
  have ok: "family_ok ?w" by (simp add: family_ok_def newWorld_def)
  have dims: "distinct (Dimensions (options (family ?w)))" by (simp add: newWorld_def)
  have size: "length ?L = length (Dimensions (options (family ?w)))" by (simp add: newWorld_def)
  have names: "labelPair.Name ` set ?L = set (Dimensions (options (family ?w)))"
    by (auto simp: newWorld_def)
  have perm: "mset ?L' = mset ?L" by simp
  have empty: "children (family ?w) = []" by (simp add: newWorld_def)
  from Apply_twice_same_instance [OF ok dims size names perm] empty ok perm
  show ?thesis by auto
qed

text \<open>
  C2 at a family that already has a child: with the counter for \<open>GET\<close> in place, two
  \<^verbatim>\<open>Apply\<close> calls on \<open>[(method, POST)]\<close> return the same new counter, and the family has
  two children, not one.
\<close>

theorem Apply_twice_count_counterexample:
  "children (family world_GET) = [0]
   \<and> fst (counterPartial_Apply \<lparr>labels = [LabelPair ''method'' ''POST'']\<rparr> world_GET) = Returned 1
   \<and> fst (counterPartial_Apply \<lparr>labels = [LabelPair ''method'' ''POST'']\<rparr> world_GET_POST) = Returned 1
   \<and> length (children (family (snd (counterPartial_Apply
         \<lparr>labels = [LabelPair ''method'' ''POST'']\<rparr> world_GET_POST)))) = 2"
  by (simp add: world_GET_POST_facts world_GET_facts
        example_options_def Apply_unfold fingerprint_POST)

text \<open>
  C7. When the fingerprint of the sorted labels is not in the index and the labels miss a
  dimension, name an undeclared one, or are not as many as the dimensions, \<^verbatim>\<open>Apply\<close>
  panics with one of the two panics of \<^verbatim>\<open>validate\<close> and the world, hence the
  family's children and index, is as before.
\<close>

theorem Apply_validation_error:
  assumes canon: "canonicalize L = Returned c"
    and absent: "childrenSet (family w) (labelPairs_fingerprint c) = None"
    and mismatch: "length L \<noteq> length (Dimensions (options (family w)))
       \<or> \<not> set (Dimensions (options (family w))) \<subseteq> labelPair.Name ` set L
       \<or> \<not> labelPair.Name ` set L \<subseteq> set (Dimensions (options (family w)))"
  shows "\<exists>e. counterPartial_Apply \<lparr>labels = L\<rparr> w = (Panicked e, w) \<and> is_ValidationError e"
proof -
  from canonicalize_sorted [of L] canon have c: "mset c = mset L" by simp
  then have len: "length c = length L" and set: "set c = set L"
    by (metis size_mset, metis set_mset_mset)
  have "counterPartial_validate \<lparr>labels = c\<rparr> (family w) \<noteq> Returned ()"
  proof
    assume ok: "counterPartial_validate \<lparr>labels = c\<rparr> (family w) = Returned ()"
    from validate_exact [OF ok] ok mismatch len set show False
      by (simp add: validate_Returned_iff)
  qed
  with validate_cases [of "\<lparr>labels = c\<rparr>" "family w"] obtain e where
    e: "counterPartial_validate \<lparr>labels = c\<rparr> (family w) = Panicked e" "is_ValidationError e"
    by blast
  with canon absent show ?thesis
    by (simp add: counterPartial_Apply_def counterFamily_find_def)
qed

theorem Apply_validation_error_witness:
  "canonicalize [LabelPair ''a'' ''x''] = Returned [LabelPair ''a'' ''x'']
   \<and> childrenSet (family (newWorld \<lparr>Name = ''requests'', Subsystem = [], Namespace = [],
                        Dimensions = [''a'', ''b''], Help = ''h'', DefaultValue = 0\<rparr>))
        (labelPairs_fingerprint [LabelPair ''a'' ''x'']) = None
   \<and> \<not> set [''a'', ''b''] \<subseteq> labelPair.Name ` set [LabelPair ''a'' ''x'']
   \<and> (\<exists>e. counterPartial_Apply \<lparr>labels = [LabelPair ''a'' ''x'']\<rparr>
              (newWorld \<lparr>Name = ''requests'', Subsystem = [], Namespace = [],
                        Dimensions = [''a'', ''b''], Help = ''h'', DefaultValue = 0\<rparr>)
            = (Panicked e,
               newWorld \<lparr>Name = ''requests'', Subsystem = [], Namespace = [],
                        Dimensions = [''a'', ''b''], Help = ''h'', DefaultValue = 0\<rparr>)
          \<and> is_ValidationError e)"
proof -
  let ?w = "newWorld \<lparr>Name = ''requests'', Subsystem = [], Namespace = [],
                      Dimensions = [''a'', ''b''], Help = ''h'', DefaultValue = 0\<rparr>"
  let ?L = "[LabelPair ''a'' ''x'']"
  have canon: "canonicalize ?L = Returned ?L"
    by (simp add: canonicalize_def sort_IsSorted_def)
  have absent: "childrenSet (family ?w) (labelPairs_fingerprint ?L) = None"
    by (simp add: newWorld_def)
  have missing: "\<not> set (Dimensions (options (family ?w))) \<subseteq> labelPair.Name ` set ?L"
    by (simp add: newWorld_def)
  then have mismatch: "length ?L \<noteq> length (Dimensions (options (family ?w)))
       \<or> \<not> set (Dimensions (options (family ?w))) \<subseteq> labelPair.Name ` set ?L
       \<or> \<not> labelPair.Name ` set ?L \<subseteq> set (Dimensions (options (family ?w)))"
    by blast
  from Apply_validation_error [OF canon absent mismatch] canon absent missing
  show ?thesis by (simp add: newWorld_def)
qed

text \<open>
  C9. The fingerprint hashes the bytes of each name and value one after the other, with
  nothing between them. \<open>[(ab, c)]\<close> and \<open>[(a, bc)]\<close> are two different sorted label sets
  with the same fingerprint, the hash of \<open>abc\<close>. In a new family whose one dimension is
  \<open>ab\<close> (whatever its other options), \<^verbatim>\<open>Apply\<close> on the first creates a counter, and
  \<^verbatim>\<open>Apply\<close> on the second returns that same counter, still labelled \<open>(ab, c)\<close>, and
  adds no child.
\<close>

theorem fingerprint_collision_same_instance:
  "[LabelPair ''ab'' ''c''] \<noteq> [LabelPair ''a'' ''bc'']
   \<and> canonicalize [LabelPair ''ab'' ''c''] = Returned [LabelPair ''ab'' ''c'']
   \<and> canonicalize [LabelPair ''a'' ''bc''] = Returned [LabelPair ''a'' ''bc'']
   \<and> labelPairs_fingerprint [LabelPair ''ab'' ''c''] = labelPairs_fingerprint [LabelPair ''a'' ''bc'']
   \<and> (\<exists>a w1.
         counterPartial_Apply \<lparr>labels = [LabelPair ''ab'' ''c'']\<rparr>
             (newWorld (o'\<lparr>Dimensions := [''ab'']\<rparr>)) = (Returned a, w1)
         \<and> counterPartial_Apply \<lparr>labels = [LabelPair ''a'' ''bc'']\<rparr> w1 = (Returned a, w1)
         \<and> Labels (counters w1 a) = [LabelPair ''ab'' ''c'']
         \<and> children (family w1) = [a])"
proof -
  let ?w = "newWorld (o'\<lparr>Dimensions := [''ab'']\<rparr>)"
  have same: "labelPairs_fingerprint [LabelPair ''a'' ''bc''] = labelPairs_fingerprint [LabelPair ''ab'' ''c'']"
    by (simp add: labelPairs_fingerprint_def)
  have absent: "childrenSet (family ?w) (labelPairs_fingerprint [LabelPair ''ab'' ''c'']) = None"
    by (simp add: newWorld_def)
  have valid: "counterPartial_validate \<lparr>labels = [LabelPair ''ab'' ''c'']\<rparr> (family ?w) = Returned ()"
    by (simp add: counterPartial_validate_def newWorld_def)
  from Apply_twice [OF family_ok_newWorld canonicalize_single canonicalize_single same valid]
  obtain a w1 where r:
    "counterPartial_Apply \<lparr>labels = [LabelPair ''ab'' ''c'']\<rparr> ?w = (Returned a, w1)"
    "counterPartial_Apply \<lparr>labels = [LabelPair ''a'' ''bc'']\<rparr> w1 = (Returned a, w1)"
    "a \<in> set (children (family w1))"
    "Labels (counters w1 a) = [LabelPair ''ab'' ''c'']"
    "length (children (family w1)) = Suc (length (children (family ?w)))"
    using absent by auto
  from r(5) have "length (children (family w1)) = 1" by (simp add: newWorld_def)
  with r(3) have "children (family w1) = [a]"
    by (cases "children (family w1)") auto
  with r same show ?thesis by (simp add: canonicalize_single)
qed

section \<open>Claims about forget\<close>

text \<open>
  C1 (the code at the failing input). The family holds the counters for \<open>GET\<close> and \<open>POST\<close>
  at positions 0 and 1, and the index says so. \<^verbatim>\<open>forget\<close> of the fingerprint at position 1,
  the last, takes \<^verbatim>\<open>children[:index-1]\<close>, which is \<^verbatim>\<open>children[:0]\<close>: both children are gone,
  where \<^verbatim>\<open>children[0:1]\<close> should remain. The switch alone, on any two or three children:
  index 1 of two leaves none, and index 1 of three leaves only the last.
\<close>

theorem forget_last_removes_two:
  "children (family world_GET_POST) = [0, 1]
   \<and> childrenSet (family world_GET_POST) (fingerprint (counters world_GET_POST 0)) = Some 0
   \<and> childrenSet (family world_GET_POST) (fingerprint (counters world_GET_POST 1)) = Some 1
   \<and> fst (counterFamily_forget (fingerprint (counters world_GET_POST 1)) world_GET_POST)
       = Returned ()
   \<and> children (family (snd (counterFamily_forget (fingerprint (counters world_GET_POST 1))
                              world_GET_POST))) = []
   \<and> forget_switch 1 [a, b] = Returned []
   \<and> forget_switch 1 [a, b, c] = Returned [c]"
  by (simp add: world_GET_POST_facts counterFamily_forget_def forget_switch_def slice_to_def
        slice_from_def)

text \<open>
  C4 (the code at the failing input). From a new family, two registrations (by \<^verbatim>\<open>Apply\<close>)
  and then \<^verbatim>\<open>Forget\<close> on the counter at position 0: the counter for \<open>POST\<close> is now the
  only child, at position 0, but the index still maps its fingerprint to 1, and
  \<^verbatim>\<open>find\<close> of that fingerprint panics on the index out of range.
\<close>

theorem forget_first_leaves_stale_index:
  "children (family world_GET_POST) = [0, 1]
   \<and> fst (counter_Forget 0 world_GET_POST) = Returned ()
   \<and> children (family (snd (counter_Forget 0 world_GET_POST))) = [1]
   \<and> childrenSet (family (snd (counter_Forget 0 world_GET_POST)))
        (fingerprint (counters (snd (counter_Forget 0 world_GET_POST)) 1)) = Some 1
   \<and> counterFamily_find (fingerprint (counters world_GET_POST 1))
        (snd (counter_Forget 0 world_GET_POST)) = Panicked IndexOutOfRange"
  by (simp add: world_GET_POST_facts counter_Forget_def counterFamily_forget_def
        forget_switch_def slice_to_def
        slice_from_def counterFamily_find_def index_at_def)

section \<open>Claims about the registry\<close>

text \<open>
  C6. Take a registry reached by registrations that holds a family built by
  \<^verbatim>\<open>NewCounterFamily\<close>, and options with a name and a help text whose derived name is that
  family's. \<^verbatim>\<open>NewCounterFamily\<close> on these options panics in \<^verbatim>\<open>register\<close> (already
  registered) and the registry, its families and its index, is as before.
\<close>

theorem register_same_name_panics:
  assumes built: "NewCounterFamily og r0 = (Returned fam, r1)"
    and present: "as_Family fam \<in> set (families (registry_after fs))"
    and same: "deriveName o' = deriveName og"
    and valid: "MetricOptions_validate o' = Returned ()"
  shows "NewCounterFamily o' (registry_after fs) = (Panicked AlreadyRegistered, registry_after fs)"
proof -
  from NewCounterFamily_Returned [OF built] have "Family_fingerprint (as_Family fam) = 0"
    by (simp add: as_Family_def counterFamily_fingerprint_def newWorld_def)
  then have "Family_fingerprint (as_Family fam)
      = Family_fingerprint (as_Family \<lparr>children = [], childrenSet = Map.empty, options = o',
                                       name = deriveName o', fp = 0\<rparr>)"
    by (simp add: as_Family_def counterFamily_fingerprint_def)
  from register_duplicate [OF registry_after_ok present this] valid show ?thesis
    by (simp add: NewCounterFamily_def)
qed

theorem register_same_name_panics_witness:
  "fst (NewCounterFamily example_options newRegistry) = Returned (family (newWorld example_options))
   \<and> as_Family (family (newWorld example_options))
        \<in> set (families (registry_after [as_Family (family (newWorld example_options))]))
   \<and> deriveName (example_options\<lparr>Dimensions := [''code''], Help := ''Once more.''\<rparr>)
        = deriveName example_options
   \<and> MetricOptions_validate (example_options\<lparr>Dimensions := [''code''], Help := ''Once more.''\<rparr>)
        = Returned ()
   \<and> NewCounterFamily (example_options\<lparr>Dimensions := [''code''], Help := ''Once more.''\<rparr>)
         (registry_after [as_Family (family (newWorld example_options))])
       = (Panicked AlreadyRegistered,
          registry_after [as_Family (family (newWorld example_options))])"
proof -
  let ?fam = "family (newWorld example_options)"
  let ?o = "example_options\<lparr>Dimensions := [''code''], Help := ''Once more.''\<rparr>"
  have reg: "registry_after [as_Family ?fam]
      = \<lparr>families = [as_Family ?fam], familiesSet = [0 \<mapsto> 0]\<rparr>"
    by (simp add: registry_after_def registry_register_def newRegistry_def sort_Sort_def
          reindex_def as_Family_def counterFamily_fingerprint_def newWorld_def)
  have first: "fst (NewCounterFamily example_options newRegistry) = Returned ?fam"
    by (simp add: NewCounterFamily_def MetricOptions_validate_def example_options_def
          registry_register_def newRegistry_def sort_Sort_def as_Family_def
          counterFamily_fingerprint_def newWorld_def Let_def)
  then have built: "NewCounterFamily example_options newRegistry
      = (Returned ?fam, snd (NewCounterFamily example_options newRegistry))"
    by (metis prod.collapse)
  have present: "as_Family ?fam \<in> set (families (registry_after [as_Family ?fam]))"
    by (simp add: reg)
  have same: "deriveName ?o = deriveName example_options"
    by (simp add: deriveName_def example_options_def)
  have valid: "MetricOptions_validate ?o = Returned ()"
    by (simp add: MetricOptions_validate_def example_options_def)
  from register_same_name_panics [OF built present same valid] first present same valid
  show ?thesis by simp
qed

text \<open>
  C10. Namespace \<open>a\<close> with no subsystem and subsystem \<open>a\<close> with no namespace, both with
  name \<open>b\<close>, are different options with the one derived name \<open>a_b\<close>; the first
  \<^verbatim>\<open>NewCounterFamily\<close> on a new registry registers its family, and the second panics
  (already registered), leaving the registry with that one family.
\<close>

theorem deriveName_collision_panics:
  "\<lparr>Name = ''b'', Subsystem = [], Namespace = ''a'', Dimensions = dims, Help = ''One.'',
      DefaultValue = d\<rparr>
     \<noteq> \<lparr>Name = ''b'', Subsystem = ''a'', Namespace = [], Dimensions = dims, Help = ''One.'',
         DefaultValue = d\<rparr>
   \<and> deriveName \<lparr>Name = ''b'', Subsystem = [], Namespace = ''a'', Dimensions = dims,
                  Help = ''One.'', DefaultValue = d\<rparr> = ''a_b''
   \<and> deriveName \<lparr>Name = ''b'', Subsystem = ''a'', Namespace = [], Dimensions = dims,
                  Help = ''One.'', DefaultValue = d\<rparr> = ''a_b''
   \<and> (\<exists>f1 r1.
         NewCounterFamily \<lparr>Name = ''b'', Subsystem = [], Namespace = ''a'', Dimensions = dims,
                            Help = ''One.'', DefaultValue = d\<rparr> newRegistry = (Returned f1, r1)
         \<and> length (families r1) = 1
         \<and> NewCounterFamily \<lparr>Name = ''b'', Subsystem = ''a'', Namespace = [], Dimensions = dims,
                              Help = ''One.'', DefaultValue = d\<rparr> r1
             = (Panicked AlreadyRegistered, r1))"
  by (simp add: deriveName_def NewCounterFamily_def MetricOptions_validate_def
        registry_register_def newRegistry_def sort_Sort_def reindex_def as_Family_def
        counterFamily_fingerprint_def Let_def)

section \<open>Claims about the text dump\<close>

text \<open>
  C8. Into a buffer, \<^verbatim>\<open>dumpText\<close> appends one line per child, in the children's order:
  the family name, \<open>{\<close>, the child's \<open>name=value\<close> pairs joined by commas, \<open>}: \<close>, the
  value with six decimals, and a newline. The pairs of a child are those \<^verbatim>\<open>Apply\<close> stored
  when it created the child: the partial's pairs, sorted by name and value. In particular
  the child \<open>[(method, GET)]\<close> of the family \<open>requests\<close>, set to 5, dumps as
  \<open>requests{method=GET}: 5.000000\<close>.
\<close>

theorem dumpText_lines:
  "counterFamily_dumpText Buffer_Write w buf
     = (None,
        buf @ concat (map (\<lambda>c. name (family w) @ ''{''
                @ strings_Join (map (\<lambda>p. labelPair.Name p @ ''='' @ labelPair.Value p)
                                  (Labels (counters w c))) '',''
                @ ''}: '' @ fmt_f (Value (counters w c)) @ [CHR 0x0A])
              (children (family w))))
   \<and> (canonicalize L = Returned c
        \<and> childrenSet (family w) (labelPairs_fingerprint c) = None
        \<and> counterPartial_Apply \<lparr>labels = L\<rparr> w = (Returned a, w')
        \<longrightarrow> Labels (counters w' a) = c \<and> mset c = mset L \<and> sorted (map pair_key c))
   \<and> counterFamily_NewChild [''method'', ''GET''] = Returned \<lparr>labels = [LabelPair ''method'' ''GET'']\<rparr>
   \<and> fst (counterPartial_Apply \<lparr>labels = [LabelPair ''method'' ''GET'']\<rparr>
            (newWorld example_options)) = Returned 0
   \<and> world_GET = snd (counterPartial_Apply \<lparr>labels = [LabelPair ''method'' ''GET'']\<rparr>
                        (newWorld example_options))
   \<and> counterFamily_dumpText Buffer_Write (counter_Set 0 5 world_GET) []
       = (None, ''requests{method=GET}: 5.000000'' @ [CHR 0x0A])"
proof -
  have lines: "counterFamily_dumpText Buffer_Write w buf
     = (None,
        buf @ concat (map (\<lambda>c. name (family w) @ ''{''
                @ strings_Join (map (\<lambda>p. labelPair.Name p @ ''='' @ labelPair.Value p)
                                  (Labels (counters w c))) '',''
                @ ''}: '' @ fmt_f (Value (counters w c)) @ [CHR 0x0A])
              (children (family w))))" for w :: world and buf
    by (simp add: counterFamily_dumpText_def dumpText_children_Buffer counter_asText_eq)
  have sorted: "Labels (counters w' a) = c \<and> mset c = mset L \<and> sorted (map pair_key c)"
    if "canonicalize L = Returned c" "childrenSet (family w) (labelPairs_fingerprint c) = None"
      "counterPartial_Apply \<lparr>labels = L\<rparr> w = (Returned a, w')"
    using Apply_new_labels [OF that] canonicalize_sorted [of L] that(1) by simp
  have scenario: "counterFamily_dumpText Buffer_Write (counter_Set 0 5 world_GET) []
       = (None, ''requests{method=GET}: 5.000000'' @ [CHR 0x0A])"
    unfolding lines by (simp add: counter_Set_def world_GET_facts fmt_f_5)
  have first: "fst (counterPartial_Apply \<lparr>labels = [LabelPair ''method'' ''GET'']\<rparr>
            (newWorld example_options)) = Returned 0"
    by (simp add: newWorld_def example_options_def Apply_unfold Let_def)
  show ?thesis
    using lines [of w buf] sorted scenario first
    by (simp add: counterFamily_NewChild_def world_GET_def)
qed

theorem dumpText_lines_witness:
  "canonicalize [LabelPair ''method'' ''GET''] = Returned [LabelPair ''method'' ''GET'']
   \<and> childrenSet (family (newWorld example_options))
        (labelPairs_fingerprint [LabelPair ''method'' ''GET'']) = None
   \<and> counterPartial_Apply \<lparr>labels = [LabelPair ''method'' ''GET'']\<rparr> (newWorld example_options)
       = (Returned 0, world_GET)
   \<and> Labels (counters world_GET 0) = [LabelPair ''method'' ''GET'']
   \<and> sorted (map pair_key [LabelPair ''method'' ''GET''])"
proof -
  have canon: "canonicalize [LabelPair ''method'' ''GET''] = Returned [LabelPair ''method'' ''GET'']"
    by (rule canonicalize_single)
  have absent: "childrenSet (family (newWorld example_options))
        (labelPairs_fingerprint [LabelPair ''method'' ''GET'']) = None"
    by (simp add: newWorld_def)
  have "fst (counterPartial_Apply \<lparr>labels = [LabelPair ''method'' ''GET'']\<rparr>
            (newWorld example_options)) = Returned 0"
    by (simp add: newWorld_def example_options_def Apply_unfold Let_def)
  then have ap: "counterPartial_Apply \<lparr>labels = [LabelPair ''method'' ''GET'']\<rparr>
      (newWorld example_options) = (Returned 0, world_GET)"
    unfolding world_GET_def by (metis prod.collapse)
  from dumpText_lines [where w = "newWorld example_options" and a = 0 and w' = world_GET
      and L = "[LabelPair ''method'' ''GET'']" and c = "[LabelPair ''method'' ''GET'']"]
    canon absent ap
  show ?thesis by simp
qed

end
